theory Spec2Isabelle
  imports Main "HOL-Library.Word"
begin

section \<open>The emulator's memory\<close>

text \<open>
  The environment of \<^verbatim>\<open>gym_super_mario_bros/smb_env.py\<close> reads the console's work RAM
  through \<^verbatim>\<open>self.ram\<close>, a numpy array of unsigned bytes that the emulator exposes. A
  cell is an 8-bit word; the memory is a function from addresses to cells, of which the
  first \<open>ram_size\<close> form the array. Every fixed address of the source lies below
  \<open>ram_size\<close>, so a read at a fixed address cannot raise; a read at a computed index
  goes through \<open>ram_at\<close>, which raises like numpy does.

  Arithmetic that mixes one cell with a Python integer is carried out by numpy, under
  the promotion rules this code runs with, in the platform's signed integer type, far
  from overflow for the magnitudes that occur here: it is modelled on \<open>int\<close> after
  \<open>uint\<close>. Arithmetic between two cells stays in 8 bits and wraps: it is modelled on the
  words themselves.
\<close>

type_synonym byte = "8 word"
type_synonym ram = "nat \<Rightarrow> byte"

datatype py_error = IndexError | ValueError | TypeError

definition ram_size :: nat where
  "ram_size = 0x800"

definition ram_at :: "ram \<Rightarrow> int \<Rightarrow> py_error + byte" where
  \<comment> \<open>\<^verbatim>\<open>self.ram[i]\<close> at a computed index: a negative index counts from the end.\<close>
  "ram_at m i =
     (if 0 \<le> i \<and> i < int ram_size then Inr (m (nat i))
      else if - int ram_size \<le> i \<and> i < 0 then Inr (m (nat (i + int ram_size)))
      else Inl IndexError)"

definition ram_slice :: "ram \<Rightarrow> nat \<Rightarrow> nat \<Rightarrow> byte list" where
  \<comment> \<open>\<^verbatim>\<open>self.ram[address:address + length]\<close>: a slice stops at the end of the array.\<close>
  "ram_slice m address len = map m [address ..< min (address + len) ram_size]"

subsection \<open>Decimal strings\<close>

definition digit_char :: "nat \<Rightarrow> char" where
  "digit_char d = ''0123456789'' ! d"

fun str_nat :: "nat \<Rightarrow> string" where
  "str_nat n =
     (if n < 10 then [digit_char n] else str_nat (n div 10) @ [digit_char (n mod 10)])"

declare str_nat.simps [simp del]

definition str_byte :: "byte \<Rightarrow> string" where
  \<comment> \<open>\<^verbatim>\<open>str\<close> of a numpy unsigned byte: its decimal numeral.\<close>
  "str_byte b = str_nat (unat b)"

definition digit_of_char :: "char \<Rightarrow> nat option" where
  \<comment> \<open>The value of a decimal digit character; \<open>None\<close> for any other character.\<close>
  "digit_of_char c = map_of (zip ''0123456789'' [0..<10]) c"

fun int_of_digits :: "int \<Rightarrow> string \<Rightarrow> py_error + int" where
  "int_of_digits acc [] = Inr acc"
| "int_of_digits acc (c # cs) =
     (case digit_of_char c of
        None \<Rightarrow> Inl ValueError
      | Some d \<Rightarrow> int_of_digits (10 * acc + int d) cs)"

definition max_str_digits :: nat where
  \<comment> \<open>The interpreter's default limit on the digits of a decimal string that \<^verbatim>\<open>int\<close>
      converts (\<^verbatim>\<open>sys.int_info.default_max_str_digits\<close>).\<close>
  "max_str_digits = 4300"

definition py_int :: "string \<Rightarrow> py_error + int" where
  \<comment> \<open>Python's \<^verbatim>\<open>int\<close> on a string, for the strings that reach it here: decimal digits
      only. The empty string raises ValueError, and so does a string of more digits than
      the interpreter's limit.\<close>
  "py_int s =
     (if s = [] then Inl ValueError
      else if length s > max_str_digits then Inl ValueError
      else int_of_digits 0 s)"

definition read_mem_range :: "ram \<Rightarrow> nat \<Rightarrow> nat \<Rightarrow> py_error + int" where
  \<comment> \<open>\<^verbatim>\<open>int(''.join(map(str, self.ram[address:address + length])))\<close>\<close>
  "read_mem_range m address len = py_int (concat (map str_byte (ram_slice m address len)))"

subsection \<open>Decoded fields\<close>

definition score :: "ram \<Rightarrow> py_error + int" where
  "score m = read_mem_range m 0x07de 6"

definition time :: "ram \<Rightarrow> py_error + int" where
  "time m = read_mem_range m 0x07f8 3"

definition coins :: "ram \<Rightarrow> py_error + int" where
  "coins m = read_mem_range m 0x07ed 2"

definition life :: "ram \<Rightarrow> byte" where
  "life m = m 0x075a"

definition x_position :: "ram \<Rightarrow> int" where
  "x_position m = uint (m 0x6d) * 0x100 + uint (m 0x86)"

definition left_x_position :: "ram \<Rightarrow> int" where
  \<comment> \<open>The subtraction is between two cells and wraps in 8 bits before \<^verbatim>\<open>% 256\<close>.\<close>
  "left_x_position m = uint (m 0x86 - m 0x071c) mod 256"

definition y_pixel :: "ram \<Rightarrow> byte" where
  "y_pixel m = m 0x03b8"

definition y_viewport :: "ram \<Rightarrow> byte" where
  "y_viewport m = m 0x00b5"

definition y_position :: "ram \<Rightarrow> int" where
  "y_position m =
     (if uint (y_viewport m) < 1 then 255 + (255 - uint (y_pixel m))
      else 255 - uint (y_pixel m))"

definition player_state :: "ram \<Rightarrow> byte" where
  "player_state m = m 0x000e"

definition is_dying :: "ram \<Rightarrow> bool" where
  "is_dying m = (player_state m = 0x0b \<or> uint (y_viewport m) > 1)"

definition is_dead :: "ram \<Rightarrow> bool" where
  "is_dead m = (player_state m = 0x06)"

definition is_game_over :: "ram \<Rightarrow> bool" where
  "is_game_over m = (life m = 0xff)"

definition BUSY_STATES :: "byte list" where
  "BUSY_STATES = [0x00, 0x01, 0x02, 0x03, 0x04, 0x05, 0x07]"

definition is_busy :: "ram \<Rightarrow> bool" where
  "is_busy m = (player_state m \<in> set BUSY_STATES)"

definition is_world_over :: "ram \<Rightarrow> bool" where
  "is_world_over m = (m 0x0770 = 2)"

definition ENEMY_TYPE_ADDRESSES :: "nat list" where
  "ENEMY_TYPE_ADDRESSES = [0x0016, 0x0017, 0x0018, 0x0019, 0x001A]"

definition STAGE_OVER_ENEMIES :: "byte list" where
  "STAGE_OVER_ENEMIES = [0x2D, 0x31]"

definition is_stage_over :: "ram \<Rightarrow> bool" where
  \<comment> \<open>\<^verbatim>\<open>np.isin(self.ram[_ENEMY_TYPE_ADDRESSES], _STAGE_OVER_ENEMIES).any()\<close> guards the
      test of the float state.\<close>
  "is_stage_over m =
     (if list_ex (\<lambda>a. m a \<in> set STAGE_OVER_ENEMIES) ENEMY_TYPE_ADDRESSES
      then m 0x001D = 3
      else False)"

definition flag_get :: "ram \<Rightarrow> bool" where
  "flag_get m = (is_world_over m \<or> is_stage_over m)"

section \<open>The environment object\<close>

text \<open>
  The fields of \<^verbatim>\<open>SuperMarioBrosEnv\<close> that the methods below read or write. The memory
  is shared with the emulator, whose remaining internal state is \<open>core\<close>. The target
  fields are \<open>None\<close> when no stage is pinned.
\<close>

record 'c env =
  ram :: ram
  core :: 'c
  target_world :: "int option"
  target_stage :: "int option"
  target_area :: "int option"
  time_last :: int
  x_position_last :: int
  r :: int

definition is_single_stage_env :: "'c env \<Rightarrow> bool" where
  "is_single_stage_env e = (target_world e \<noteq> None \<and> target_area e \<noteq> None)"

subsection \<open>Reward\<close>

definition x_reward :: "'c env \<Rightarrow> int \<times> 'c env" where
  \<comment> \<open>The property stores the current position as a side effect: the environment is
      returned with the value.\<close>
  "x_reward e =
     (let reward = x_position (ram e) - x_position_last e;
          e = e\<lparr>x_position_last := x_position (ram e)\<rparr>
      in (if reward = 0 then - 10 else 0, e))"

definition time_penalty :: "'c env \<Rightarrow> py_error + int" where
  "time_penalty e =
     (case time (ram e) of
        Inl err \<Rightarrow> Inl err
      | Inr t \<Rightarrow>
          let reward = t - time_last e;
              reward = (0::int)
          in (case time (ram e) of
                Inl err \<Rightarrow> Inl err
              | Inr t' \<Rightarrow>
                  if t' = 0 then Inr (- 5000)
                  else if reward > 0 then Inr 0
                  else Inr 5))"

definition death_penalty :: "ram \<Rightarrow> int" where
  "death_penalty m = (if is_dying m \<or> is_dead m then - 5000 else 0)"

definition get_reward :: "'c env \<Rightarrow> py_error + int \<times> 'c env" where
  \<comment> \<open>The three terms are evaluated from left to right; the sum is stored in \<open>r\<close>.\<close>
  "get_reward e =
     (let (xr, e) = x_reward e;
          dp = death_penalty (ram e)
      in case time_penalty e of
           Inl err \<Rightarrow> Inl err
         | Inr tp \<Rightarrow>
             let e = e\<lparr>r := xr + dp + tp\<rparr>;
                 e = (if flag_get (ram e) then e\<lparr>r := r e + 1000000\<rparr> else e)
             in Inr (r e, e))"

subsection \<open>Termination of the episode\<close>

definition get_done :: "'c env \<Rightarrow> bool" where
  "get_done e =
     (if is_single_stage_env e
      then is_dying (ram e) \<or> is_dead (ram e) \<or> flag_get (ram e)
      else is_game_over (ram e))"

section \<open>The tile grid\<close>

definition addr_enemy_page :: nat where
  "addr_enemy_page = 0x6e"

definition addr_enemy_x :: nat where
  "addr_enemy_x = 0x87"

definition addr_enemy_y :: nat where
  "addr_enemy_y = 0xcf"

definition addr_tiles :: int where
  "addr_tiles = 0x500"

record enemy =
  enemy_x :: int
  enemy_y :: byte

definition get_enemies :: "ram \<Rightarrow> enemy list" where
  \<comment> \<open>The slots \<^verbatim>\<open>range(0,4)\<close> whose flag at \<^verbatim>\<open>0xF + slot\<close> is not zero, in slot order;
      the dictionary with keys \<^verbatim>\<open>"x"\<close> and \<^verbatim>\<open>"y"\<close> is a record.\<close>
  "get_enemies m =
     map (\<lambda>slot. \<lparr>enemy_x = uint (m (addr_enemy_page + slot)) * 0x100
                             + uint (m (addr_enemy_x + slot)),
                   enemy_y = m (addr_enemy_y + slot)\<rparr>)
       (filter (\<lambda>slot. m (0xF + slot) \<noteq> 0) [0..<4])"

definition get_tile_type :: "ram \<Rightarrow> int \<Rightarrow> int \<Rightarrow> py_error + int" where
  \<comment> \<open>\<^verbatim>\<open>floor(a / b)\<close> on these small integers is exact and is the floor division
      \<open>div\<close>; \<^verbatim>\<open>%\<close> is \<open>mod\<close>. The index is computed before the bound is tested; the
      memory is read after.\<close>
  "get_tile_type m box_x box_y =
     (let left_x = left_x_position m;
          local_x = x_position m - left_x + box_x + 112;
          local_y = box_y + 96;
          local_page = (local_x div 256) mod 2;
          sub_x = (local_x mod 256) div 16;
          sub_y = (local_y - 32) div 16;
          curr_tile_addr = addr_tiles + local_page * 13 * 16 + sub_y * 16 + sub_x
      in if sub_y \<ge> 13 \<or> sub_y < 0 then Inr 0
         else (case ram_at m curr_tile_addr of
                 Inl err \<Rightarrow> Inl err
               | Inr b \<Rightarrow> if b \<noteq> 0 then Inr 1 else Inr 0))"

function py_range :: "int \<Rightarrow> int \<Rightarrow> int \<Rightarrow> int list" where
  "py_range start stop step =
     (if 0 < step \<and> start < stop then start # py_range (start + step) stop step else [])"
  by pat_completeness auto
termination
  by (relation "measure (\<lambda>(start, stop, step). nat (stop - start))") auto

declare py_range.simps [simp del]

fun collect :: "('e + 'a) list \<Rightarrow> 'e + 'a list" where
  "collect [] = Inr []"
| "collect (x # xs) =
     (case x of
        Inl err \<Rightarrow> Inl err
      | Inr v \<Rightarrow> (case collect xs of Inl err \<Rightarrow> Inl err | Inr vs \<Rightarrow> Inr (v # vs)))"

definition mark_enemy :: "ram \<Rightarrow> int \<Rightarrow> int \<Rightarrow> int \<Rightarrow> int \<Rightarrow> enemy \<Rightarrow> int" where
  \<comment> \<open>One round of the loop over the enemies, on the running \<^verbatim>\<open>tile_value\<close>.
      \<^verbatim>\<open>fabs\<close> of these integers is exact.\<close>
  "mark_enemy m left_x box_x box_y tile_value i =
     (let dist_x = \<bar>enemy_x i - (x_position m + box_x - left_x + 108)\<bar>;
          dist_y = \<bar>uint (enemy_y i) - (90 + box_y)\<bar>
      in if dist_x \<le> 8 \<and> dist_y \<le> 8 then 2 else tile_value)"

definition tile_cell ::
  "ram \<Rightarrow> enemy list \<Rightarrow> int \<Rightarrow> byte \<Rightarrow> int \<Rightarrow> int \<Rightarrow> py_error + int" where
  \<comment> \<open>The body of the inner loop of \<^verbatim>\<open>_get_tiles\<close>: the value appended for one cell.\<close>
  "tile_cell m enemies left_x yv box_y box_x =
     (case get_tile_type m box_x box_y of
        Inl err \<Rightarrow> Inl err
      | Inr curr_tile_type \<Rightarrow>
          let tile_value = 0;
              tile_value =
                (if curr_tile_type = 1 \<and> y_position m + box_y < 0x1B0 then 1 else tile_value);
              tile_value = foldl (mark_enemy m left_x box_x box_y) tile_value enemies;
              dist_x = \<bar>x_position m - (x_position m + box_x - left_x + 108)\<bar>;
              dist_y = \<bar>uint (y_pixel m) - (80 + box_y)\<bar>
          in Inr (if uint yv = 1 \<and> dist_x \<le> 8 \<and> dist_y \<le> 8 then 3 else tile_value))"

definition get_tiles :: "ram \<Rightarrow> py_error + int list list" where
  "get_tiles m =
     (let enemies = get_enemies m;
          left_x = left_x_position m;
          yv = y_viewport m
      in collect
           (map (\<lambda>box_y.
                   collect (map (tile_cell m enemies left_x yv box_y)
                              (py_range (- 7 * 16) (8 * 16) 16)))
              (py_range (- 4 * 16) (8 * 16) 16)))"

section \<open>Skipping the start screen\<close>

text \<open>
  \<^verbatim>\<open>_frame_advance\<close> belongs to the emulator: it applies one controller bitmask and runs
  one frame, which may change the memory and the emulator's internal state in any way.
  It is a parameter of the model.
\<close>

type_synonym 'c emulator = "int \<Rightarrow> ram \<times> 'c \<Rightarrow> ram \<times> 'c"

definition frame_advance :: "'c emulator \<Rightarrow> int \<Rightarrow> 'c env \<Rightarrow> 'c env" where
  "frame_advance emu action e =
     (let (m, c) = emu action (ram e, core e) in e\<lparr>ram := m, core := c\<rparr>)"

definition write_stage :: "'c env \<Rightarrow> py_error + 'c env" where
  \<comment> \<open>Subtracting from a missing target raises TypeError. A stored value is cast to the
      cell's 8 bits.\<close>
  "write_stage e =
     (case target_world e of
        None \<Rightarrow> Inl TypeError
      | Some w \<Rightarrow>
          (case target_stage e of
             None \<Rightarrow> Inl TypeError
           | Some s \<Rightarrow>
               (case target_area e of
                  None \<Rightarrow> Inl TypeError
                | Some a \<Rightarrow>
                    Inr (e\<lparr>ram := (ram e)(0x075f := word_of_int (w - 1),
                                            0x075c := word_of_int (s - 1),
                                            0x0760 := word_of_int (a - 1))\<rparr>))))"

definition runout_prelevel_timer :: "'c env \<Rightarrow> 'c env" where
  "runout_prelevel_timer e = e\<lparr>ram := (ram e)(0x07A0 := 0)\<rparr>"

definition press_start_round :: "'c emulator \<Rightarrow> 'c env \<Rightarrow> py_error + 'c env" where
  \<comment> \<open>The body of the first loop of \<^verbatim>\<open>_skip_start_screen\<close>.\<close>
  "press_start_round emu e =
     (let e = frame_advance emu 8 e
      in case (if is_single_stage_env e then write_stage e else Inr e) of
           Inl err \<Rightarrow> Inl err
         | Inr e \<Rightarrow>
             let e = frame_advance emu 0 e
             in Inr (runout_prelevel_timer e))"

partial_function (option) press_start_loop ::
  "'c emulator \<Rightarrow> 'c env \<Rightarrow> (py_error + 'c env) option" where
  \<comment> \<open>\<^verbatim>\<open>while self._time == 0: ...\<close>; \<open>None\<close> is a loop that never ends.\<close>
  "press_start_loop emu e =
     (case time (ram e) of
        Inl err \<Rightarrow> Some (Inl err)
      | Inr t \<Rightarrow>
          if t = 0 then
            (case press_start_round emu e of
               Inl err \<Rightarrow> Some (Inl err)
             | Inr e \<Rightarrow> press_start_loop emu e)
          else Some (Inr e))"

definition idle_round :: "'c emulator \<Rightarrow> 'c env \<Rightarrow> py_error + 'c env" where
  \<comment> \<open>The body of the second loop of \<^verbatim>\<open>_skip_start_screen\<close>.\<close>
  "idle_round emu e =
     (case time (ram e) of
        Inl err \<Rightarrow> Inl err
      | Inr t \<Rightarrow>
          let e = e\<lparr>time_last := t\<rparr>;
              e = frame_advance emu 8 e
          in Inr (frame_advance emu 0 e))"

partial_function (option) idle_loop ::
  "'c emulator \<Rightarrow> 'c env \<Rightarrow> (py_error + 'c env) option" where
  \<comment> \<open>\<^verbatim>\<open>while self._time >= self._time_last: ...\<close>\<close>
  "idle_loop emu e =
     (case time (ram e) of
        Inl err \<Rightarrow> Some (Inl err)
      | Inr t \<Rightarrow>
          if t \<ge> time_last e then
            (case idle_round emu e of
               Inl err \<Rightarrow> Some (Inl err)
             | Inr e \<Rightarrow> idle_loop emu e)
          else Some (Inr e))"

definition skip_start_screen :: "'c emulator \<Rightarrow> 'c env \<Rightarrow> (py_error + 'c env) option" where
  "skip_start_screen emu e =
     (let e = frame_advance emu 8 e;
          e = frame_advance emu 0 e
      in case press_start_loop emu e of
           None \<Rightarrow> None
         | Some (Inl err) \<Rightarrow> Some (Inl err)
         | Some (Inr e) \<Rightarrow>
             (case time (ram e) of
                Inl err \<Rightarrow> Some (Inl err)
              | Inr t \<Rightarrow> idle_loop emu (e\<lparr>time_last := t\<rparr>)))"

section \<open>Specification-level notions\<close>

definition base10_value :: "int list \<Rightarrow> int" where
  \<comment> \<open>The number whose decimal digits, most significant first, are \<open>ds\<close>.\<close>
  "base10_value ds = foldl (\<lambda>a d. 10 * a + d) 0 ds"

definition cell_concat_value :: "byte list \<Rightarrow> int" where
  \<comment> \<open>The number whose decimal numeral is the concatenation of the cells' numerals: each
      cell shifts what precedes it by as many places as its own numeral has digits.\<close>
  "cell_concat_value bs = foldl (\<lambda>a b. a * 10 ^ length (str_byte b) + uint b) 0 bs"

definition tile_sub_y :: "int \<Rightarrow> int" where
  \<comment> \<open>The row index \<^verbatim>\<open>sub_y\<close> that \<^verbatim>\<open>_get_tile_type\<close> computes for a vertical offset.\<close>
  "tile_sub_y box_y = (box_y + 96 - 32) div 16"

definition tile_table_index :: "ram \<Rightarrow> int \<Rightarrow> int \<Rightarrow> int" where
  \<comment> \<open>The index \<^verbatim>\<open>curr_tile_addr\<close> that \<^verbatim>\<open>_get_tile_type\<close> computes for a pair of offsets.\<close>
  "tile_table_index m box_x box_y =
     0x500
     + (((x_position m - left_x_position m + box_x + 112) div 256) mod 2) * 13 * 16
     + tile_sub_y box_y * 16
     + ((x_position m - left_x_position m + box_x + 112) mod 256) div 16"

definition enemy_near :: "ram \<Rightarrow> int \<Rightarrow> int \<Rightarrow> enemy \<Rightarrow> bool" where
  \<comment> \<open>The cell at the offsets lies within 8 pixels of the enemy on both axes.\<close>
  "enemy_near m box_x box_y i =
     (\<bar>enemy_x i - (x_position m + box_x - left_x_position m + 108)\<bar> \<le> 8
      \<and> \<bar>uint (enemy_y i) - (90 + box_y)\<bar> \<le> 8)"

definition player_near :: "ram \<Rightarrow> int \<Rightarrow> int \<Rightarrow> bool" where
  \<comment> \<open>The cell at the offsets lies within 8 pixels of the player on both axes.\<close>
  "player_near m box_x box_y =
     (\<bar>x_position m - (x_position m + box_x - left_x_position m + 108)\<bar> \<le> 8
      \<and> \<bar>uint (y_pixel m) - (80 + box_y)\<bar> \<le> 8)"

definition observe ::
  "'c emulator \<Rightarrow> 'c env \<Rightarrow> (py_error + int) \<times> int \<times> 'c \<times> (py_error + int)" where
  \<comment> \<open>What is seen of a state: the time, the cached previous time, the emulator's core,
      and the time one more frame later.\<close>
  "observe emu e = (time (ram e), time_last e, core e, time (ram (frame_advance emu 0 e)))"

definition on_return ::
  "'c emulator \<Rightarrow> (py_error + 'c env) option \<Rightarrow>
     (py_error + (py_error + int) \<times> int \<times> 'c \<times> (py_error + int)) option" where
  "on_return emu res = map_option (map_sum id (observe emu)) res"

section \<open>Example states\<close>

definition zero_ram :: ram where
  "zero_ram = (\<lambda>_. 0)"

definition score_750_ram :: ram where
  \<comment> \<open>The score cells hold \<open>[0,0,0,7,5,0]\<close>.\<close>
  "score_750_ram = zero_ram(0x07e1 := 7, 0x07e2 := 5)"

definition time_45_ram :: ram where
  \<comment> \<open>The time cells hold \<open>[0,4,5]\<close>.\<close>
  "time_45_ram = zero_ram(0x07f9 := 4, 0x07fa := 5)"

definition malformed_time_ram :: ram where
  \<comment> \<open>The time cells hold \<open>[0,10,5]\<close>: the middle cell is no decimal digit.\<close>
  "malformed_time_ram = zero_ram(0x07f9 := 10, 0x07fa := 5)"

definition malformed_score_ram :: ram where
  \<comment> \<open>The score cells hold \<open>[255,0,0,7,5,0]\<close>.\<close>
  "malformed_score_ram = zero_ram(0x07de := 255, 0x07e1 := 7, 0x07e2 := 5)"

definition example_env :: "ram \<Rightarrow> unit env" where
  \<comment> \<open>A freshly constructed multi-stage environment over the given memory.\<close>
  "example_env m =
     \<lparr>ram = m, core = (), target_world = None, target_stage = None, target_area = None,
      time_last = 0, x_position_last = 0, r = 0\<rparr>"

definition single_stage_env :: "ram \<Rightarrow> unit env" where
  \<comment> \<open>An environment pinned to world 1, stage 1.\<close>
  "single_stage_env m =
     \<lparr>ram = m, core = (), target_world = Some 1, target_stage = Some 1, target_area = Some 1,
      time_last = 0, x_position_last = 0, r = 0\<rparr>"

definition tiles_ram :: ram where
  \<comment> \<open>The player on screen at pixel (112, 80) in the visible viewport, an enemy in slot 0
      within 8 pixels of the same cell, and a solid tile under that cell.\<close>
  "tiles_ram =
     zero_ram(0x86 := 112, 0x00b5 := 1, 0x03b8 := 80, 0xF := 1, 0x87 := 108, 0xcf := 90,
              0x547 := 0x54)"

definition clock_face :: "nat \<Rightarrow> nat" where
  \<comment> \<open>The hundreds digit of the clock after \<open>n\<close> frames: 0 on the start screen, 4 for
      four frames, then one less each frame down to 0.\<close>
  "clock_face n = (if n < 4 then 0 else if n < 8 then 4 else if n < 11 then 11 - n else 0)"

definition clock_emulator :: "nat emulator" where
  \<comment> \<open>An emulator that ignores the controller, counts frames in its core and shows
      the clock in the first time cell.\<close>
  "clock_emulator action s =
     (case s of (m, c) \<Rightarrow> (m(0x07f8 := of_nat (clock_face (c + 1))), c + 1))"

definition clock_env :: "nat env" where
  "clock_env =
     \<lparr>ram = zero_ram, core = 0, target_world = None, target_stage = None, target_area = None,
      time_last = 0, x_position_last = 0, r = 0\<rparr>"

definition pinned_clock_env :: "nat env" where
  \<comment> \<open>The same environment pinned to world 2, stage 3, area 3.\<close>
  "pinned_clock_env =
     clock_env\<lparr>target_world := Some 2, target_stage := Some 3, target_area := Some 3\<rparr>"

section \<open>Digit-sequence decoding\<close>

lemma digit_of_digit_char: "d < 10 \<Longrightarrow> digit_of_char (digit_char d) = Some d"
proof -
  assume "d < 10"
  then have "d = 0 \<or> d = 1 \<or> d = 2 \<or> d = 3 \<or> d = 4 \<or> d = 5 \<or> d = 6 \<or> d = 7
      \<or> d = 8 \<or> d = 9"
    by arith
  then show ?thesis
    by (elim disjE) (simp_all add: digit_char_def digit_of_char_def upt_rec)
qed

lemma int_of_digits_append:
  "int_of_digits acc (s @ t) =
     (case int_of_digits acc s of Inl e \<Rightarrow> Inl e | Inr a \<Rightarrow> int_of_digits a t)"
  by (induction s arbitrary: acc) (simp_all split: option.splits)

lemma str_nat_nonempty: "str_nat n \<noteq> []"
  by (subst str_nat.simps) simp

lemma str_nat_digit: "n < 10 \<Longrightarrow> str_nat n = [digit_char n]"
  by (subst str_nat.simps) simp

lemma int_of_digits_str_nat:
  "int_of_digits acc (str_nat n) = Inr (acc * 10 ^ length (str_nat n) + int n)"
proof (induction n arbitrary: acc rule: str_nat.induct)
  case (1 n)
  show ?case
  proof (cases "n < 10")
    case True
    then show ?thesis
      by (simp add: str_nat_digit digit_of_digit_char)
  next
    case False
    have unfold: "str_nat n = str_nat (n div 10) @ [digit_char (n mod 10)]"
      using False by (subst str_nat.simps) simp
    have last_digit: "digit_of_char (digit_char (n mod 10)) = Some (n mod 10)"
      by (rule digit_of_digit_char) simp
    have "int n = 10 * int (n div 10) + int (n mod 10)"
      by (simp add: zdiv_int zmod_int)
    then show ?thesis
      using "1.IH" [OF False] last_digit
      by (simp add: unfold int_of_digits_append algebra_simps)
  qed
qed

lemma int_of_digits_cells:
  "int_of_digits acc (concat (map str_byte bs)) =
     Inr (foldl (\<lambda>a b. a * 10 ^ length (str_byte b) + uint b) acc bs)"
  by (induction bs arbitrary: acc)
     (simp_all add: int_of_digits_append str_byte_def int_of_digits_str_nat)

lemma concat_str_nonempty: "bs \<noteq> [] \<Longrightarrow> concat (map str_byte bs) \<noteq> []"
  by (cases bs) (simp_all add: str_byte_def str_nat_nonempty)

lemma ram_slice_nonempty:
  "0 < len \<Longrightarrow> address < ram_size \<Longrightarrow> ram_slice m address len \<noteq> []"
  by (simp add: ram_slice_def)

lemma length_str_nat_3:
  assumes "n < 1000"
  shows "length (str_nat n) \<le> 3"
proof (cases "n < 10")
  case True
  then show ?thesis
    by (simp add: str_nat_digit)
next
  case False
  then have outer: "str_nat n = str_nat (n div 10) @ [digit_char (n mod 10)]"
    by (subst str_nat.simps) simp
  show ?thesis
  proof (cases "n div 10 < 10")
    case True
    then show ?thesis
      by (simp add: outer str_nat_digit)
  next
    case False
    then have inner:
      "str_nat (n div 10) = str_nat (n div 10 div 10) @ [digit_char (n div 10 mod 10)]"
      by (subst str_nat.simps) simp
    have "n div 10 div 10 < 10"
      using assms by simp
    then show ?thesis
      by (simp add: outer inner str_nat_digit)
  qed
qed

lemma length_str_byte: "length (str_byte b) \<le> 3"
proof -
  have "unat b < 2 ^ LENGTH(8)"
    by (rule unsigned_less)
  then have "unat b < 1000"
    by simp
  then show ?thesis
    unfolding str_byte_def by (rule length_str_nat_3)
qed

lemma length_concat_cells: "length (concat (map str_byte bs)) \<le> 3 * length bs"
proof (induction bs)
  case Nil
  show ?case by simp
next
  case (Cons b bs)
  with length_str_byte [of b] show ?case
    by simp
qed

lemma length_concat_digit_cells:
  "\<forall>b\<in>set bs. b \<le> 9 \<Longrightarrow> length (concat (map str_byte bs)) = length bs"
proof (induction bs)
  case Nil
  show ?case by simp
next
  case (Cons b bs)
  from Cons.prems have "b \<le> 9" by simp
  then have "unat b < 10"
    by (simp add: word_le_nat_alt)
  then have "length (str_byte b) = 1"
    by (simp add: str_byte_def str_nat_digit)
  with Cons show ?case
    by simp
qed

lemma length_ram_slice: "length (ram_slice m address len) \<le> len"
  by (simp add: ram_slice_def)

lemma length_ram_slice_size: "length (ram_slice m address len) \<le> ram_size"
  by (simp add: ram_slice_def)

lemma read_mem_range_cells:
  assumes "ram_slice m address len \<noteq> []"
    and "length (concat (map str_byte (ram_slice m address len))) \<le> max_str_digits"
  shows "read_mem_range m address len = Inr (cell_concat_value (ram_slice m address len))"
proof -
  from assms(1) have "concat (map str_byte (ram_slice m address len)) \<noteq> []"
    by (rule concat_str_nonempty)
  moreover from assms(2)
  have "\<not> length (concat (map str_byte (ram_slice m address len))) > max_str_digits"
    by simp
  ultimately show ?thesis
    unfolding read_mem_range_def py_int_def cell_concat_value_def
    by (simp only: if_False int_of_digits_cells)
qed

lemma read_mem_range_value:
  assumes "0 < len" and "len \<le> 1433" and "address < ram_size"
  shows "read_mem_range m address len = Inr (cell_concat_value (ram_slice m address len))"
proof (rule read_mem_range_cells)
  show "ram_slice m address len \<noteq> []"
    using assms(1,3) by (rule ram_slice_nonempty)
  have "length (concat (map str_byte (ram_slice m address len)))
      \<le> 3 * length (ram_slice m address len)"
    by (rule length_concat_cells)
  also have "\<dots> \<le> 3 * len"
    using length_ram_slice [of m address len] by simp
  also have "\<dots> \<le> max_str_digits"
    using assms(2) by (simp add: max_str_digits_def)
  finally show "length (concat (map str_byte (ram_slice m address len))) \<le> max_str_digits" .
qed

lemma ram_slice_inside:
  "address + len \<le> ram_size \<Longrightarrow>
     ram_slice m address len = map (\<lambda>i. m (address + i)) [0..<len]"
proof -
  assume "address + len \<le> ram_size"
  then have "ram_slice m address len = map m [address..<address + len]"
    by (simp add: ram_slice_def min_def)
  also have "[address..<address + len] = map (\<lambda>i. address + i) [0..<len]"
    by (simp add: map_add_upt add.commute)
  finally show ?thesis
    by (simp add: comp_def)
qed

lemma digit_cells_fold:
  "\<forall>b\<in>set bs. b \<le> 9 \<Longrightarrow>
     foldl (\<lambda>a b. a * 10 ^ length (str_byte b) + uint b) acc bs =
     foldl (\<lambda>a d. 10 * a + d) acc (map uint bs)"
proof (induction bs arbitrary: acc)
  case Nil
  show ?case by simp
next
  case (Cons b bs)
  from Cons.prems have "b \<le> 9" by simp
  then have "unat b < 10"
    by (simp add: word_le_nat_alt)
  then have "length (str_byte b) = 1"
    by (simp add: str_byte_def str_nat_digit)
  with Cons show ?case
    by (simp add: mult.commute)
qed

lemma cell_concat_digits:
  "\<forall>b\<in>set bs. b \<le> 9 \<Longrightarrow> cell_concat_value bs = base10_value (map uint bs)"
  by (simp add: cell_concat_value_def base10_value_def digit_cells_fold)

lemma cell_concat_nonneg_aux:
  "0 \<le> acc \<Longrightarrow> 0 \<le> foldl (\<lambda>a b. a * 10 ^ length (str_byte b) + uint b) acc bs"
  by (induction bs arbitrary: acc) simp_all

lemma cell_concat_nonneg: "0 \<le> cell_concat_value bs"
  by (simp add: cell_concat_value_def cell_concat_nonneg_aux)

lemma score_slice:
  "ram_slice m 0x07de 6 = [m 0x07de, m 0x07df, m 0x07e0, m 0x07e1, m 0x07e2, m 0x07e3]"
  by (simp add: ram_slice_def ram_size_def upt_rec)

lemma time_slice: "ram_slice m 0x07f8 3 = [m 0x07f8, m 0x07f9, m 0x07fa]"
  by (simp add: ram_slice_def ram_size_def upt_rec)

lemma coins_value: "coins m = Inr (cell_concat_value (ram_slice m 0x07ed 2))"
  unfolding coins_def by (rule read_mem_range_value) (simp_all add: ram_size_def)

lemma score_value: "score m = Inr (cell_concat_value (ram_slice m 0x07de 6))"
  unfolding score_def by (rule read_mem_range_value) (simp_all add: ram_size_def)

lemma time_value: "time m = Inr (cell_concat_value (ram_slice m 0x07f8 3))"
  unfolding time_def by (rule read_mem_range_value) (simp_all add: ram_size_def)

lemmas cell_eval = cell_concat_value_def str_byte_def str_nat.simps digit_char_def

text \<open>
  C3. \<^verbatim>\<open>_read_mem_range\<close> on \<open>len\<close> consecutive cells inside the array, each holding one
  decimal digit, most significant first, returns the base-10 number with these digits in
  address order. In particular the score cells \<open>[0,0,0,7,5,0]\<close> decode to 750 and the
  time cells \<open>[0,4,5]\<close> decode to 45.
\<close>

theorem read_mem_range_digits:
  "(0 < len \<and> address + len \<le> ram_size \<and> (\<forall>i<len. m (address + i) \<le> 9) \<longrightarrow>
      read_mem_range m address len =
        Inr (base10_value (map (\<lambda>i. uint (m (address + i))) [0..<len])))
   \<and> (m 0x07de = 0 \<and> m 0x07df = 0 \<and> m 0x07e0 = 0 \<and> m 0x07e1 = 7 \<and> m 0x07e2 = 5
        \<and> m 0x07e3 = 0 \<longrightarrow> score m = Inr 750)
   \<and> (m 0x07f8 = 0 \<and> m 0x07f9 = 4 \<and> m 0x07fa = 5 \<longrightarrow> time m = Inr 45)"
proof (intro conjI impI)
  assume h: "0 < len \<and> address + len \<le> ram_size \<and> (\<forall>i<len. m (address + i) \<le> 9)"
  then have inside: "address < ram_size" and fits: "address + len \<le> ram_size"
    by simp_all
  have slice: "ram_slice m address len = map (\<lambda>i. m (address + i)) [0..<len]"
    using fits by (rule ram_slice_inside)
  have digit_cells: "\<forall>b\<in>set (ram_slice m address len). b \<le> 9"
    using h by (simp add: slice)
  then have "cell_concat_value (ram_slice m address len) =
      base10_value (map uint (ram_slice m address len))"
    by (rule cell_concat_digits)
  moreover have "read_mem_range m address len = Inr (cell_concat_value (ram_slice m address len))"
  proof (rule read_mem_range_cells)
    show "ram_slice m address len \<noteq> []"
      using h inside by (simp add: ram_slice_nonempty)
    have "length (concat (map str_byte (ram_slice m address len)))
        = length (ram_slice m address len)"
      using digit_cells by (rule length_concat_digit_cells)
    also have "\<dots> \<le> ram_size"
      by (rule length_ram_slice_size)
    finally show "length (concat (map str_byte (ram_slice m address len))) \<le> max_str_digits"
      by (simp add: ram_size_def max_str_digits_def)
  qed
  ultimately show "read_mem_range m address len =
      Inr (base10_value (map (\<lambda>i. uint (m (address + i))) [0..<len]))"
    by (simp add: slice comp_def)
next
  assume "m 0x07de = 0 \<and> m 0x07df = 0 \<and> m 0x07e0 = 0 \<and> m 0x07e1 = 7 \<and> m 0x07e2 = 5
      \<and> m 0x07e3 = 0"
  then show "score m = Inr 750"
    by (simp add: score_value score_slice cell_eval)
next
  assume "m 0x07f8 = 0 \<and> m 0x07f9 = 4 \<and> m 0x07fa = 5"
  then show "time m = Inr 45"
    by (simp add: time_value time_slice cell_eval)
qed

theorem read_mem_range_digits_witness:
  "read_mem_range score_750_ram 0x07de 6 = Inr 750
   \<and> score score_750_ram = Inr 750
   \<and> time time_45_ram = Inr 45"
proof -
  have cells: "\<forall>i<6. score_750_ram (0x07de + i) \<le> 9"
    by (simp add: score_750_ram_def zero_ram_def)
  have digits: "[0..<6] = [0, 1, 2, 3, 4, 5::nat]"
    by (simp add: upt_rec)
  have "read_mem_range score_750_ram 0x07de 6 =
      Inr (base10_value (map (\<lambda>i. uint (score_750_ram (0x07de + i))) [0..<6]))"
    using read_mem_range_digits [of 6 "0x07de" score_750_ram] cells
    by (simp add: ram_size_def)
  then have "read_mem_range score_750_ram 0x07de 6 = Inr 750"
    by (simp add: digits base10_value_def score_750_ram_def zero_ram_def)
  moreover have "score score_750_ram = Inr 750"
    using read_mem_range_digits [of 6 "0x07de" score_750_ram]
    by (simp add: score_750_ram_def zero_ram_def)
  moreover have "time time_45_ram = Inr 45"
    using read_mem_range_digits [of 3 "0x07f8" time_45_ram]
    by (simp add: time_45_ram_def zero_ram_def)
  ultimately show ?thesis
    by simp
qed

text \<open>
  C4. The claim is that a cell outside 0-9 makes the decoding fail. The source validates
  nothing: \<^verbatim>\<open>str\<close> renders any cell as its decimal numeral and \<^verbatim>\<open>int\<close> parses the
  concatenation, so the time cells \<open>[0,10,5]\<close> decode to 105.
\<close>

theorem read_mem_range_malformed_counterexample:
  "time malformed_time_ram = Inr 105"
  by (simp add: time_value time_slice cell_eval malformed_time_ram_def zero_ram_def)

text \<open>
  C4, as the code has it. For every memory state and every range of 1 to 1433 cells that
  starts inside the array, \<^verbatim>\<open>_read_mem_range\<close> raises nothing: it returns the
  non-negative number whose decimal numeral is the concatenation of the cells' decimal
  numerals, whatever the cells hold. A cell has at most three digits, so such a range
  stays within the number of digits that \<^verbatim>\<open>int\<close> converts. The score, the time and the
  coins are such ranges.
\<close>

theorem read_mem_range_never_fails:
  "(0 < len \<and> len \<le> 1433 \<and> address < ram_size \<longrightarrow>
      read_mem_range m address len = Inr (cell_concat_value (ram_slice m address len))
      \<and> 0 \<le> cell_concat_value (ram_slice m address len))
   \<and> score m = Inr (cell_concat_value (ram_slice m 0x07de 6))
   \<and> time m = Inr (cell_concat_value (ram_slice m 0x07f8 3))
   \<and> coins m = Inr (cell_concat_value (ram_slice m 0x07ed 2))"
  by (simp add: read_mem_range_value cell_concat_nonneg score_value time_value coins_value)

theorem read_mem_range_never_fails_witness:
  "read_mem_range malformed_score_ram 0x07de 6 = Inr 25500750
   \<and> score malformed_score_ram = Inr 25500750"
proof -
  have "read_mem_range malformed_score_ram 0x07de 6 =
      Inr (cell_concat_value (ram_slice malformed_score_ram 0x07de 6))"
    using read_mem_range_never_fails [of 6 "0x07de" malformed_score_ram]
    by (simp add: ram_size_def)
  moreover have "score malformed_score_ram =
      Inr (cell_concat_value (ram_slice malformed_score_ram 0x07de 6))"
    using read_mem_range_never_fails [of 6 "0x07de" malformed_score_ram]
    by simp
  ultimately show ?thesis
    by (simp add: score_slice cell_eval malformed_score_ram_def zero_ram_def)
qed

section \<open>Stage progress\<close>

text \<open>
  C5. The vertical position is \<open>255 + (255 - y_pixel)\<close> when the viewport register is
  below 1 and \<open>255 - y_pixel\<close> otherwise, with no wrap-around; viewport 1 and pixel 200
  give 55, viewport 0 and pixel 200 give 310.
\<close>

theorem y_position_spec:
  "y_position m =
     (if uint (y_viewport m) < 1 then 255 + (255 - uint (y_pixel m))
      else 255 - uint (y_pixel m))
   \<and> y_viewport m = m 0x00b5 \<and> y_pixel m = m 0x03b8
   \<and> (y_viewport m = 1 \<and> y_pixel m = 200 \<longrightarrow> y_position m = 55)
   \<and> (y_viewport m = 0 \<and> y_pixel m = 200 \<longrightarrow> y_position m = 310)"
  by (simp add: y_position_def y_viewport_def y_pixel_def)

theorem y_position_spec_witness:
  "y_position (zero_ram(0x00b5 := 1, 0x03b8 := 200)) = 55
   \<and> y_position (zero_ram(0x03b8 := 200)) = 310"
  using y_position_spec [of "zero_ram(0x00b5 := 1, 0x03b8 := 200)"]
    y_position_spec [of "zero_ram(0x03b8 := 200)"]
  by (simp add: zero_ram_def)

text \<open>
  C6. \<^verbatim>\<open>_is_stage_over\<close> holds exactly when one of the five enemy-type cells is the
  Bowser byte 0x2D or the flagpole byte 0x31 and the float-state cell is 3. When all five
  cells hold one other byte (a vine) and the float state is 3, it does not hold.
\<close>

theorem is_stage_over_iff:
  "(is_stage_over m \<longleftrightarrow>
      (\<exists>a\<in>{0x16, 0x17, 0x18, 0x19, 0x1A}. m a = 0x2D \<or> m a = 0x31) \<and> m 0x1D = 3)
   \<and> ((\<forall>a\<in>{0x16, 0x17, 0x18, 0x19, 0x1A}. m a = v) \<and> v \<noteq> 0x2D \<and> v \<noteq> 0x31 \<and> m 0x1D = 3
        \<longrightarrow> \<not> is_stage_over m)"
  by (auto simp add: is_stage_over_def ENEMY_TYPE_ADDRESSES_def STAGE_OVER_ENEMIES_def)

theorem is_stage_over_iff_witness:
  "\<not> is_stage_over ((\<lambda>_. 0x2F)(0x1D := 3))
   \<and> is_stage_over (zero_ram(0x16 := 0x31, 0x1D := 3))"
  using is_stage_over_iff [of "(\<lambda>_. 0x2F)(0x1D := 3)" "0x2F"]
    is_stage_over_iff [of "zero_ram(0x16 := 0x31, 0x1D := 3)" 0]
  by (simp add: zero_ram_def)

text \<open>
  C7. In single-stage mode \<^verbatim>\<open>_get_done\<close> is \<open>is_dying \<or> is_dead \<or> flag_get\<close>; otherwise
  it is \<open>is_game_over\<close>, which holds when the life counter is 0xFF. A player state of
  0x06 makes \<open>is_dead\<close> hold and, in single-stage mode, the episode done.
\<close>

theorem get_done_spec:
  "(is_single_stage_env e \<longrightarrow>
      get_done e = (is_dying (ram e) \<or> is_dead (ram e) \<or> flag_get (ram e)))
   \<and> (\<not> is_single_stage_env e \<longrightarrow> get_done e = is_game_over (ram e))
   \<and> is_game_over (ram e) = (ram e 0x075a = 0xFF)
   \<and> (player_state (ram e) = 0x06 \<longrightarrow>
        is_dead (ram e) \<and> (is_single_stage_env e \<longrightarrow> get_done e))"
  by (simp add: get_done_def is_game_over_def life_def is_dead_def)

theorem get_done_spec_witness:
  "get_done (single_stage_env (zero_ram(0x000e := 0x06)))
   \<and> is_dead (zero_ram(0x000e := 0x06))
   \<and> \<not> get_done (example_env (zero_ram(0x000e := 0x06)))
   \<and> get_done (example_env (zero_ram(0x075a := 0xFF)))"
proof -
  have single: "is_single_stage_env (single_stage_env m)" for m
    by (simp add: is_single_stage_env_def single_stage_env_def)
  have multi: "\<not> is_single_stage_env (example_env m)" for m
    by (simp add: is_single_stage_env_def example_env_def)
  have state: "player_state (ram (single_stage_env (zero_ram(0x000e := 0x06)))) = 0x06"
    by (simp add: player_state_def single_stage_env_def)
  show ?thesis
    using get_done_spec [of "single_stage_env (zero_ram(0x000e := 0x06))"]
      get_done_spec [of "example_env (zero_ram(0x000e := 0x06))"]
      get_done_spec [of "example_env (zero_ram(0x075a := 0xFF))"]
      single multi state
    by (simp add: single_stage_env_def example_env_def zero_ram_def)
qed

section \<open>Reward\<close>

lemma time_penalty_value:
  "time_penalty e =
     Inr (if cell_concat_value (ram_slice (ram e) 0x07f8 3) = 0 then - 5000 else 5)"
  by (simp add: time_penalty_def time_value)

text \<open>
  C2. For every memory state the time field decodes, and \<^verbatim>\<open>_time_penalty\<close> is -5000 when
  it is 0 and 5 otherwise; the cached previous time has no influence.
\<close>

theorem time_penalty_spec:
  "\<exists>t. time (ram e) = Inr t
     \<and> time_penalty e = Inr (if t = 0 then - 5000 else 5)
     \<and> time_penalty (e\<lparr>time_last := previous\<rparr>) = time_penalty e"
  by (simp add: time_penalty_value time_value)

theorem time_penalty_spec_witness:
  "time_penalty (example_env time_45_ram) = Inr 5
   \<and> time_penalty (example_env zero_ram) = Inr (- 5000)
   \<and> time_penalty ((example_env time_45_ram)\<lparr>time_last := 44\<rparr>) = Inr 5"
proof -
  have t45: "time (ram (example_env time_45_ram)) = Inr 45"
    by (simp add: example_env_def time_value time_slice cell_eval time_45_ram_def
        zero_ram_def)
  have t0: "time (ram (example_env zero_ram)) = Inr 0"
    by (simp add: example_env_def time_value time_slice cell_eval zero_ram_def)
  from time_penalty_spec [of "example_env time_45_ram" 44] t45
  have "time_penalty (example_env time_45_ram) = Inr 5
      \<and> time_penalty ((example_env time_45_ram)\<lparr>time_last := 44\<rparr>) = Inr 5"
    by auto
  moreover from time_penalty_spec [of "example_env zero_ram" 0] t0
  have "time_penalty (example_env zero_ram) = Inr (- 5000)"
    by auto
  ultimately show ?thesis
    by simp
qed

text \<open>
  C1. \<^verbatim>\<open>_get_reward\<close> returns, and stores in \<open>r\<close>, the sum of the three terms plus
  1,000,000 added once when \<open>flag_get\<close> holds. The x term is -10 when the position equals
  the cached previous position and 0 otherwise, and the cache then holds the current
  position; the death term is -5000 when \<open>is_dying\<close> or \<open>is_dead\<close> holds and 0
  otherwise; the time term is the value of \<^verbatim>\<open>_time_penalty\<close>.
\<close>

theorem get_reward_spec:
  "\<exists>timeTerm. time_penalty e = Inr timeTerm \<and>
     (let xTerm = (if x_position (ram e) - x_position_last e = 0 then - 10 else 0);
          deathTerm = (if is_dying (ram e) \<or> is_dead (ram e) then - 5000 else 0);
          total = xTerm + deathTerm + timeTerm + (if flag_get (ram e) then 1000000 else 0)
      in get_reward e =
           Inr (total, e\<lparr>x_position_last := x_position (ram e), r := total\<rparr>))"
  by (simp add: get_reward_def x_reward_def death_penalty_def time_penalty_value Let_def)

theorem get_reward_spec_witness:
  "map_sum id fst (get_reward (example_env (time_45_ram(0x0770 := 2)))) = Inr 999995
   \<and> map_sum id fst (get_reward (example_env (zero_ram(0x86 := 1, 0x000e := 0x06))))
       = Inr (- 10000)"
proof -
  have tp1: "time_penalty (example_env (time_45_ram(0x0770 := 2))) = Inr 5"
    by (simp add: time_penalty_value example_env_def time_slice cell_eval time_45_ram_def
        zero_ram_def)
  have tp2: "time_penalty (example_env (zero_ram(0x86 := 1, 0x000e := 0x06))) = Inr (- 5000)"
    by (simp add: time_penalty_value example_env_def time_slice cell_eval zero_ram_def)
  have "map_sum id fst (get_reward (example_env (time_45_ram(0x0770 := 2)))) = Inr 999995"
    using get_reward_spec [of "example_env (time_45_ram(0x0770 := 2))"] tp1
    by (auto simp add: Let_def example_env_def x_position_def is_dying_def is_dead_def
        player_state_def y_viewport_def flag_get_def is_world_over_def time_45_ram_def
        zero_ram_def)
  moreover
  have "map_sum id fst (get_reward (example_env (zero_ram(0x86 := 1, 0x000e := 0x06))))
      = Inr (- 10000)"
    using get_reward_spec [of "example_env (zero_ram(0x86 := 1, 0x000e := 0x06))"] tp2
    by (auto simp add: Let_def example_env_def x_position_def is_dying_def is_dead_def
        player_state_def y_viewport_def flag_get_def is_world_over_def is_stage_over_def
        ENEMY_TYPE_ADDRESSES_def STAGE_OVER_ENEMIES_def zero_ram_def)
  ultimately show ?thesis
    by simp
qed

section \<open>The tile grid: safety and shape\<close>

lemma get_tile_type_unfold:
  "get_tile_type m box_x box_y =
     (if tile_sub_y box_y \<ge> 13 \<or> tile_sub_y box_y < 0 then Inr 0
      else (case ram_at m (tile_table_index m box_x box_y) of
              Inl err \<Rightarrow> Inl err
            | Inr b \<Rightarrow> if b \<noteq> 0 then Inr 1 else Inr 0))"
  by (simp add: get_tile_type_def tile_table_index_def tile_sub_y_def addr_tiles_def Let_def)

lemma tile_addr_bounds:
  assumes "0 \<le> tile_sub_y box_y" and "tile_sub_y box_y < 13"
  shows "0x500 \<le> tile_table_index m box_x box_y" and "tile_table_index m box_x box_y \<le> 0x69F"
proof -
  define local_x where "local_x = x_position m - left_x_position m + box_x + 112"
  define page where "page = (local_x div 256) mod 2"
  define sub_x where "sub_x = (local_x mod 256) div 16"
  have addr: "tile_table_index m box_x box_y =
      0x500 + page * 13 * 16 + tile_sub_y box_y * 16 + sub_x"
    by (simp add: tile_table_index_def page_def sub_x_def local_x_def)
  have page: "0 \<le> page" "page \<le> 1"
    by (simp_all add: page_def)
  have "0 \<le> local_x mod 256" "local_x mod 256 < 256"
    by simp_all
  then have sub_x: "0 \<le> sub_x" "sub_x \<le> 15"
    unfolding sub_x_def by arith+
  show "0x500 \<le> tile_table_index m box_x box_y"
    using page sub_x assms by (simp add: addr)
  show "tile_table_index m box_x box_y \<le> 0x69F"
    using page sub_x assms by (simp add: addr)
qed

lemma rows: "py_range (- 64) 128 16 = [- 64, - 48, - 32, - 16, 0, 16, 32, 48, 64, 80, 96, 112]"
  by (simp add: py_range.simps)

lemma cols: "py_range (- 112) 128 16 =
   [- 112, - 96, - 80, - 64, - 48, - 32, - 16, 0, 16, 32, 48, 64, 80, 96, 112]"
  by (simp add: py_range.simps)

lemma get_tile_type_outside:
  "\<not> (0 \<le> tile_sub_y box_y \<and> tile_sub_y box_y < 13) \<Longrightarrow> get_tile_type m box_x box_y = Inr 0"
  by (auto simp add: get_tile_type_unfold)

lemma get_tile_type_inside:
  assumes "0 \<le> tile_sub_y box_y" and "tile_sub_y box_y < 13"
  shows "get_tile_type m box_x box_y =
     Inr (if m (nat (tile_table_index m box_x box_y)) \<noteq> 0 then 1 else 0)"
proof -
  have "0 \<le> tile_table_index m box_x box_y"
    and "tile_table_index m box_x box_y < int ram_size"
    using tile_addr_bounds [OF assms, of m box_x] by (simp_all add: ram_size_def)
  then have "ram_at m (tile_table_index m box_x box_y) =
      Inr (m (nat (tile_table_index m box_x box_y)))"
    by (simp add: ram_at_def)
  then show ?thesis
    using assms by (simp add: get_tile_type_unfold)
qed

lemma get_tile_type_cases:
  "get_tile_type m box_x box_y = Inr 0 \<or> get_tile_type m box_x box_y = Inr 1"
proof (cases "0 \<le> tile_sub_y box_y \<and> tile_sub_y box_y < 13")
  case True
  then show ?thesis
    by (simp add: get_tile_type_inside)
next
  case False
  then show ?thesis
    by (simp add: get_tile_type_outside)
qed

lemma tile_table_index_frame:
  "m' 0x6d = m 0x6d \<Longrightarrow> m' 0x86 = m 0x86 \<Longrightarrow> m' 0x071c = m 0x071c \<Longrightarrow>
     tile_table_index m' box_x box_y = tile_table_index m box_x box_y"
  by (simp add: tile_table_index_def x_position_def left_x_position_def)

lemma get_tile_type_frame:
  assumes regs: "m' 0x6d = m 0x6d" "m' 0x86 = m 0x86" "m' 0x071c = m 0x071c"
    and table: "\<forall>a. 0x500 \<le> a \<and> a \<le> 0x69F \<longrightarrow> m' a = m a"
  shows "get_tile_type m' box_x box_y = get_tile_type m box_x box_y"
proof (cases "0 \<le> tile_sub_y box_y \<and> tile_sub_y box_y < 13")
  case True
  then have inside: "0 \<le> tile_sub_y box_y" "tile_sub_y box_y < 13"
    by simp_all
  have same: "tile_table_index m' box_x box_y = tile_table_index m box_x box_y"
    using regs by (rule tile_table_index_frame)
  have "0x500 \<le> nat (tile_table_index m box_x box_y)
      \<and> nat (tile_table_index m box_x box_y) \<le> 0x69F"
    using tile_addr_bounds [OF inside, of m box_x] by arith
  with table have "m' (nat (tile_table_index m box_x box_y)) =
      m (nat (tile_table_index m box_x box_y))"
    by blast
  then show ?thesis
    by (simp add: get_tile_type_inside [OF inside] same)
next
  case False
  then show ?thesis
    by (simp add: get_tile_type_outside)
qed

lemma sampled_rows_inside:
  "box_y \<in> set (py_range (- 4 * 16) (8 * 16) 16) \<Longrightarrow>
     0 \<le> tile_sub_y box_y \<and> tile_sub_y box_y < 13"
  by (auto simp add: rows tile_sub_y_def)

text \<open>
  C10. For all offsets, and so for those the grid builder samples, \<^verbatim>\<open>_get_tile_type\<close>
  raises nothing and returns 0 or 1. When the row index \<open>sub_y\<close> is within \<open>0 \<le> sub_y < 13\<close>
  the one read of the tile table is at an address from 0x500 to 0x69F, below
  \<open>0x500 + 2 * 13 * 16\<close>, and the result is 1 exactly when that cell is not zero; otherwise
  the result is 0 whatever the memory holds. The rows the grid builder samples are all
  within the bound. The result depends on no cell other than the three position
  registers and the cells from 0x500 to 0x69F.
\<close>

theorem get_tile_type_safe:
  "(get_tile_type m box_x box_y = Inr 0 \<or> get_tile_type m box_x box_y = Inr 1)
   \<and> (0 \<le> tile_sub_y box_y \<and> tile_sub_y box_y < 13 \<longrightarrow>
        0x500 \<le> tile_table_index m box_x box_y
        \<and> tile_table_index m box_x box_y < 0x500 + 2 * 13 * 16
        \<and> tile_table_index m box_x box_y \<le> 0x69F
        \<and> get_tile_type m box_x box_y =
            Inr (if m (nat (tile_table_index m box_x box_y)) \<noteq> 0 then 1 else 0))
   \<and> (\<not> (0 \<le> tile_sub_y box_y \<and> tile_sub_y box_y < 13) \<longrightarrow>
        (\<forall>m'. get_tile_type m' box_x box_y = Inr 0))
   \<and> (box_y \<in> set (py_range (- 4 * 16) (8 * 16) 16) \<longrightarrow>
        0 \<le> tile_sub_y box_y \<and> tile_sub_y box_y < 13)
   \<and> (m' 0x6d = m 0x6d \<and> m' 0x86 = m 0x86 \<and> m' 0x071c = m 0x071c
        \<and> (\<forall>a. 0x500 \<le> a \<and> a \<le> 0x69F \<longrightarrow> m' a = m a) \<longrightarrow>
        get_tile_type m' box_x box_y = get_tile_type m box_x box_y)"
proof (intro conjI impI allI)
  show "get_tile_type m box_x box_y = Inr 0 \<or> get_tile_type m box_x box_y = Inr 1"
    by (rule get_tile_type_cases)
next
  assume inside: "0 \<le> tile_sub_y box_y \<and> tile_sub_y box_y < 13"
  then have bounds: "0x500 \<le> tile_table_index m box_x box_y"
      "tile_table_index m box_x box_y \<le> 0x69F"
    using tile_addr_bounds [of box_y m box_x] by simp_all
  show "0x500 \<le> tile_table_index m box_x box_y"
    by (rule bounds)
  show "tile_table_index m box_x box_y < 0x500 + 2 * 13 * 16"
    using bounds by simp
  show "tile_table_index m box_x box_y \<le> 0x69F"
    by (rule bounds)
  show "get_tile_type m box_x box_y =
      Inr (if m (nat (tile_table_index m box_x box_y)) \<noteq> 0 then 1 else 0)"
    using inside by (simp add: get_tile_type_inside)
next
  fix m'
  assume "\<not> (0 \<le> tile_sub_y box_y \<and> tile_sub_y box_y < 13)"
  then show "get_tile_type m' box_x box_y = Inr 0"
    by (rule get_tile_type_outside)
next
  assume "box_y \<in> set (py_range (- 4 * 16) (8 * 16) 16)"
  then show "0 \<le> tile_sub_y box_y" and "tile_sub_y box_y < 13"
    using sampled_rows_inside by simp_all
next
  assume "m' 0x6d = m 0x6d \<and> m' 0x86 = m 0x86 \<and> m' 0x071c = m 0x071c
      \<and> (\<forall>a. 0x500 \<le> a \<and> a \<le> 0x69F \<longrightarrow> m' a = m a)"
  then show "get_tile_type m' box_x box_y = get_tile_type m box_x box_y"
    by (intro get_tile_type_frame) simp_all
qed

theorem get_tile_type_safe_witness:
  "get_tile_type tiles_ram 0 0 = Inr 1
   \<and> tile_table_index tiles_ram 0 0 = 0x547
   \<and> get_tile_type tiles_ram 0 144 = Inr 0
   \<and> get_tile_type (tiles_ram(0x6A0 := 1)) 0 0 = get_tile_type tiles_ram 0 0"
proof -
  have addr: "tile_table_index tiles_ram 0 0 = 0x547"
    by (simp add: tile_table_index_def tile_sub_y_def x_position_def left_x_position_def
        tiles_ram_def zero_ram_def)
  have sampled: "(0::int) \<in> set (py_range (- 4 * 16) (8 * 16) 16)"
    by (simp add: rows)
  have "get_tile_type tiles_ram 0 0 = Inr 1"
    using get_tile_type_safe [of tiles_ram 0 0 tiles_ram] sampled
    by (simp add: addr) (simp add: tiles_ram_def zero_ram_def)
  moreover have "get_tile_type tiles_ram 0 144 = Inr 0"
    using get_tile_type_safe [of tiles_ram 0 144 tiles_ram]
    by (simp add: tile_sub_y_def)
  moreover
  have "get_tile_type (tiles_ram(0x6A0 := 1)) 0 0 = get_tile_type tiles_ram 0 0"
    using get_tile_type_safe [of tiles_ram 0 0 "tiles_ram(0x6A0 := 1)"]
    by simp
  ultimately show ?thesis
    using addr by simp
qed

lemma foldl_mark_enemy:
  "foldl (mark_enemy m (left_x_position m) box_x box_y) tv es =
     (if list_ex (enemy_near m box_x box_y) es then 2 else tv)"
  by (induction es arbitrary: tv) (auto simp add: mark_enemy_def enemy_near_def Let_def)

lemma tile_cell_value:
  "\<exists>v. tile_cell m es (left_x_position m) yv box_y box_x = Inr v
     \<and> v \<in> {0, 1, 2, 3}
     \<and> (v = 3 \<longleftrightarrow> yv = 1 \<and> player_near m box_x box_y)
     \<and> (v = 2 \<longleftrightarrow> \<not> (yv = 1 \<and> player_near m box_x box_y)
                    \<and> list_ex (enemy_near m box_x box_y) es)"
proof -
  have one: "uint yv = 1 \<longleftrightarrow> yv = 1"
    by (metis uint_1 word_uint_eq_iff)
  from get_tile_type_cases [of m box_x box_y] show ?thesis
    by (auto simp add: tile_cell_def Let_def foldl_mark_enemy player_near_def one)
qed

lemma collect_map:
  "\<forall>x\<in>set xs. \<exists>v. f x = Inr v \<Longrightarrow>
     \<exists>vs. collect (map f xs) = Inr vs \<and> length vs = length xs
       \<and> (\<forall>i<length xs. f (xs ! i) = Inr (vs ! i))"
proof (induction xs)
  case Nil
  show ?case by simp
next
  case (Cons x xs)
  from Cons.prems obtain v where v: "f x = Inr v"
    by auto
  from Cons obtain vs where vs: "collect (map f xs) = Inr vs" "length vs = length xs"
      "\<forall>i<length xs. f (xs ! i) = Inr (vs ! i)"
    by auto
  have "\<forall>i<length (x # xs). f ((x # xs) ! i) = Inr ((v # vs) ! i)"
    using v vs(3) by (simp add: nth_Cons split: nat.split)
  then show ?case
    using v vs(1,2) by simp
qed


lemma length_rows: "length (py_range (- 64) 128 16) = 12"
  by (simp add: rows)

lemma length_cols: "length (py_range (- 112) 128 16) = 15"
  by (simp add: cols)

lemma get_tiles_unfold:
  "get_tiles m =
     collect (map (\<lambda>box_y. collect (map (tile_cell m (get_enemies m) (left_x_position m)
                                            (y_viewport m) box_y)
                                     (py_range (- 112) 128 16)))
                (py_range (- 64) 128 16))"
  by (simp add: get_tiles_def)

lemma tile_row:
  "\<exists>row. collect (map (tile_cell m es (left_x_position m) yv box_y) (py_range (- 112) 128 16))
        = Inr row
     \<and> length row = 15
     \<and> (\<forall>j<15. tile_cell m es (left_x_position m) yv box_y (py_range (- 112) 128 16 ! j)
          = Inr (row ! j))"
proof -
  have "\<forall>box_x\<in>set (py_range (- 112) 128 16).
      \<exists>v. tile_cell m es (left_x_position m) yv box_y box_x = Inr v"
    using tile_cell_value by blast
  from collect_map [OF this] show ?thesis
    by (simp only: length_cols)
qed

lemma tile_rows:
  "\<exists>grid. get_tiles m = Inr grid
     \<and> length grid = 12
     \<and> (\<forall>i<12.
          collect (map (tile_cell m (get_enemies m) (left_x_position m) (y_viewport m)
                          (py_range (- 64) 128 16 ! i))
                     (py_range (- 112) 128 16))
          = Inr (grid ! i))"
proof -
  have "\<forall>box_y\<in>set (py_range (- 64) 128 16).
      \<exists>row. collect (map (tile_cell m (get_enemies m) (left_x_position m) (y_viewport m) box_y)
                       (py_range (- 112) 128 16)) = Inr row"
    using tile_row by blast
  from collect_map [OF this] show ?thesis
    by (simp only: get_tiles_unfold length_rows)
qed

lemma get_tiles_cells:
  "\<exists>grid. get_tiles m = Inr grid
     \<and> length grid = 12
     \<and> (\<forall>i<12. length (grid ! i) = 15
          \<and> (\<forall>j<15. tile_cell m (get_enemies m) (left_x_position m) (y_viewport m)
                       (py_range (- 64) 128 16 ! i) (py_range (- 112) 128 16 ! j)
                     = Inr (grid ! i ! j)))"
proof -
  obtain grid where grid: "get_tiles m = Inr grid" "length grid = 12"
    "\<forall>i<12. collect (map (tile_cell m (get_enemies m) (left_x_position m) (y_viewport m)
                          (py_range (- 64) 128 16 ! i))
                     (py_range (- 112) 128 16)) = Inr (grid ! i)"
    using tile_rows by blast
  have "length (grid ! i) = 15
      \<and> (\<forall>j<15. tile_cell m (get_enemies m) (left_x_position m) (y_viewport m)
                   (py_range (- 64) 128 16 ! i) (py_range (- 112) 128 16 ! j)
                 = Inr (grid ! i ! j))" if "i < 12" for i
  proof -
    obtain row where row: "collect (map (tile_cell m (get_enemies m) (left_x_position m)
          (y_viewport m) (py_range (- 64) 128 16 ! i)) (py_range (- 112) 128 16)) = Inr row"
        "length row = 15"
        "\<forall>j<15. tile_cell m (get_enemies m) (left_x_position m) (y_viewport m)
            (py_range (- 64) 128 16 ! i) (py_range (- 112) 128 16 ! j) = Inr (row ! j)"
      using tile_row by blast
    from grid(3) that row(1) have "grid ! i = row"
      by simp
    with row(2,3) show ?thesis
      by simp
  qed
  with grid(1,2) show ?thesis
    by blast
qed

text \<open>
  C8. For every memory state \<^verbatim>\<open>_get_tiles\<close> raises nothing and returns a grid of 12 rows
  of 15 cells with values among 0, 1, 2 and 3. Each cell is the value computed from the
  current memory for its pair of offsets. A cell is 3 exactly when the viewport register is
  1 and the cell is within 8 pixels of the player, also when an enemy is within 8 pixels
  of it; it is 2 exactly when an enemy is within 8 pixels and the player test fails.
\<close>

theorem get_tiles_grid:
  "\<exists>grid. get_tiles m = Inr grid
     \<and> length grid = 12
     \<and> (\<forall>row\<in>set grid. length row = 15 \<and> (\<forall>v\<in>set row. v \<in> {0, 1, 2, 3}))
     \<and> (\<forall>i<12. \<forall>j<15.
          (let box_y = py_range (- 4 * 16) (8 * 16) 16 ! i;
               box_x = py_range (- 7 * 16) (8 * 16) 16 ! j;
               player_here = (y_viewport m = 1 \<and> player_near m box_x box_y);
               enemy_here = list_ex (enemy_near m box_x box_y) (get_enemies m)
           in tile_cell m (get_enemies m) (left_x_position m) (y_viewport m) box_y box_x
                = Inr (grid ! i ! j)
              \<and> (grid ! i ! j = 3 \<longleftrightarrow> player_here)
              \<and> (grid ! i ! j = 2 \<longleftrightarrow> \<not> player_here \<and> enemy_here)))"
proof -
  obtain grid where grid: "get_tiles m = Inr grid" "length grid = 12"
    and cells: "\<And>i. i < 12 \<Longrightarrow> length (grid ! i) = 15"
      "\<And>i j. i < 12 \<Longrightarrow> j < 15 \<Longrightarrow>
         tile_cell m (get_enemies m) (left_x_position m) (y_viewport m)
           (py_range (- 64) 128 16 ! i) (py_range (- 112) 128 16 ! j) = Inr (grid ! i ! j)"
    using get_tiles_cells [of m] by blast
  have cell_facts: "grid ! i ! j \<in> {0, 1, 2, 3}
      \<and> (grid ! i ! j = 3 \<longleftrightarrow>
           y_viewport m = 1
           \<and> player_near m (py_range (- 112) 128 16 ! j) (py_range (- 64) 128 16 ! i))
      \<and> (grid ! i ! j = 2 \<longleftrightarrow>
           \<not> (y_viewport m = 1
              \<and> player_near m (py_range (- 112) 128 16 ! j) (py_range (- 64) 128 16 ! i))
           \<and> list_ex (enemy_near m (py_range (- 112) 128 16 ! j) (py_range (- 64) 128 16 ! i))
               (get_enemies m))"
    if "i < 12" and "j < 15" for i j
    using tile_cell_value [of m "get_enemies m" "y_viewport m" "py_range (- 64) 128 16 ! i"
        "py_range (- 112) 128 16 ! j"] cells(2) [OF that]
    by auto
  have rows_ok: "length row = 15 \<and> (\<forall>v\<in>set row. v \<in> {0, 1, 2, 3})" if "row \<in> set grid" for row
  proof -
    from that grid(2) obtain i where i: "i < 12" "row = grid ! i"
      by (metis in_set_conv_nth)
    have "v \<in> {0, 1, 2, 3}" if "v \<in> set row" for v
    proof -
      from that i cells(1) obtain j where "j < 15" "v = grid ! i ! j"
        by (metis in_set_conv_nth)
      with cell_facts i show ?thesis
        by blast
    qed
    with i cells(1) show ?thesis
      by blast
  qed
  show ?thesis
    using grid rows_ok cells(2) cell_facts
    by (intro exI [of _ grid]) (simp add: Let_def)
qed


lemma tiles_ram_positions:
  "x_position tiles_ram = 112" "left_x_position tiles_ram = 112"
  "y_viewport tiles_ram = 1" "y_pixel tiles_ram = 80"
  "get_enemies tiles_ram = [\<lparr>enemy_x = 108, enemy_y = 90\<rparr>]"
  by (simp_all add: x_position_def left_x_position_def y_viewport_def y_pixel_def
      get_enemies_def addr_enemy_page_def addr_enemy_x_def addr_enemy_y_def upt_rec
      tiles_ram_def zero_ram_def)

theorem get_tiles_grid_witness:
  "(\<exists>grid. get_tiles tiles_ram = Inr grid \<and> length grid = 12 \<and> grid ! 4 ! 7 = 3)
   \<and> list_ex (enemy_near tiles_ram 0 0) (get_enemies tiles_ram)
   \<and> (\<exists>grid. get_tiles (tiles_ram(0x00b5 := 0)) = Inr grid \<and> grid ! 4 ! 7 = 2)"
proof -
  have offsets: "py_range (- 64) 128 16 ! 4 = 0" "py_range (- 112) 128 16 ! 7 = 0"
    by (simp_all add: rows cols)
  have player: "player_near tiles_ram 0 0"
    by (simp add: player_near_def tiles_ram_positions)
  have enemy: "list_ex (enemy_near tiles_ram 0 0) (get_enemies tiles_ram)"
    by (simp add: enemy_near_def tiles_ram_positions)
  have above: "y_viewport (tiles_ram(0x00b5 := 0)) = 0"
      "list_ex (enemy_near (tiles_ram(0x00b5 := 0)) 0 0) (get_enemies (tiles_ram(0x00b5 := 0)))"
    by (simp_all add: enemy_near_def x_position_def left_x_position_def y_viewport_def
      get_enemies_def addr_enemy_page_def addr_enemy_x_def addr_enemy_y_def upt_rec
      tiles_ram_def zero_ram_def)
  from get_tiles_grid [of tiles_ram] obtain grid where
    grid: "get_tiles tiles_ram = Inr grid" "length grid = 12"
    and cells: "\<And>i j. i < 12 \<Longrightarrow> j < 15 \<Longrightarrow>
      (grid ! i ! j = 3) =
        (y_viewport tiles_ram = 1
         \<and> player_near tiles_ram (py_range (- 112) 128 16 ! j) (py_range (- 64) 128 16 ! i))"
    by (auto simp add: Let_def)
  from cells [of 4 7] player have "grid ! 4 ! 7 = 3"
    by (simp add: offsets tiles_ram_positions)
  with grid have first:
    "\<exists>grid. get_tiles tiles_ram = Inr grid \<and> length grid = 12 \<and> grid ! 4 ! 7 = 3"
    by blast
  from get_tiles_grid [of "tiles_ram(0x00b5 := 0)"] obtain grid' where
    grid': "get_tiles (tiles_ram(0x00b5 := 0)) = Inr grid'"
    and cells': "\<And>i j. i < 12 \<Longrightarrow> j < 15 \<Longrightarrow>
      (grid' ! i ! j = 2) =
        (\<not> (y_viewport (tiles_ram(0x00b5 := 0)) = 1
            \<and> player_near (tiles_ram(0x00b5 := 0)) (py_range (- 112) 128 16 ! j)
                (py_range (- 64) 128 16 ! i))
         \<and> list_ex (enemy_near (tiles_ram(0x00b5 := 0)) (py_range (- 112) 128 16 ! j)
                     (py_range (- 64) 128 16 ! i))
             (get_enemies (tiles_ram(0x00b5 := 0))))"
    by (auto simp add: Let_def)
  from cells' [of 4 7] above have "grid' ! 4 ! 7 = 2"
    by (simp add: offsets)
  with grid' have "\<exists>grid. get_tiles (tiles_ram(0x00b5 := 0)) = Inr grid \<and> grid ! 4 ! 7 = 2"
    by blast
  with first enemy show ?thesis
    by simp
qed

section \<open>Skipping the start screen: the two loops\<close>

lemma clock_run: "on_return clock_emulator (skip_start_screen clock_emulator clock_env) =
   Some (Inr (Inr 300, 400, 8, Inr 200))"
  by (simp add: on_return_def observe_def skip_start_screen_def clock_env_def
      press_start_loop.simps idle_loop.simps press_start_round_def idle_round_def
      frame_advance_def clock_emulator_def clock_face_def runout_prelevel_timer_def
      is_single_stage_env_def time_value time_slice cell_eval zero_ram_def Let_def)


lemma frame_advance_fields:
  "target_world (frame_advance emu a e) = target_world e"
  "target_stage (frame_advance emu a e) = target_stage e"
  "target_area (frame_advance emu a e) = target_area e"
  "time_last (frame_advance emu a e) = time_last e"
  by (simp_all add: frame_advance_def split: prod.split)

lemma is_single_stage_frame_advance:
  "is_single_stage_env (frame_advance emu a e) = is_single_stage_env e"
  by (simp add: is_single_stage_env_def frame_advance_fields)

lemma time_nonneg: "time m = Inr t \<Longrightarrow> 0 \<le> t"
  using cell_concat_nonneg by (auto simp add: time_value)

lemma press_start_loop_unfold:
  "time (ram e) = Inr t \<Longrightarrow>
     press_start_loop emu e =
       (if t = 0 then
          (case press_start_round emu e of
             Inl err \<Rightarrow> Some (Inl err)
           | Inr e1 \<Rightarrow> press_start_loop emu e1)
        else Some (Inr e))"
  by (subst press_start_loop.simps) simp

lemma idle_round_value:
  "time (ram e) = Inr t \<Longrightarrow>
     idle_round emu e = Inr (frame_advance emu 0 (frame_advance emu 8 (e\<lparr>time_last := t\<rparr>)))"
  by (simp add: idle_round_def)

lemma idle_loop_unfold:
  "time (ram e) = Inr t \<Longrightarrow>
     idle_loop emu e =
       (if t \<ge> time_last e
        then idle_loop emu (frame_advance emu 0 (frame_advance emu 8 (e\<lparr>time_last := t\<rparr>)))
        else Some (Inr e))"
  by (subst idle_loop.simps) (simp add: idle_round_value)

lemma press_start_round_multi:
  "\<not> is_single_stage_env e \<Longrightarrow>
     press_start_round emu e =
       Inr (runout_prelevel_timer (frame_advance emu 0 (frame_advance emu 8 e)))"
  by (simp add: press_start_round_def is_single_stage_frame_advance)

lemma press_start_round_single:
  assumes "target_world e = Some w" and "target_stage e = Some s" and "target_area e = Some a"
  shows "press_start_round emu e =
     Inr (runout_prelevel_timer (frame_advance emu 0
       ((frame_advance emu 8 e)
          \<lparr>ram := (ram (frame_advance emu 8 e))
             (0x075f := word_of_int (w - 1), 0x075c := word_of_int (s - 1),
              0x0760 := word_of_int (a - 1))\<rparr>)))"
proof -
  have "is_single_stage_env (frame_advance emu 8 e)"
    using assms by (simp add: is_single_stage_env_def frame_advance_fields)
  then show ?thesis
    using assms
    by (simp add: press_start_round_def write_stage_def frame_advance_fields Let_def)
qed

lemma runout_prelevel_timer_cell: "ram (runout_prelevel_timer e) 0x07A0 = 0"
  by (simp add: runout_prelevel_timer_def)

lemma press_start_loop_return:
  assumes "press_start_loop emu e = Some res"
  shows "\<forall>e'. res = Inr e' \<longrightarrow> (\<exists>t. time (ram e') = Inr t \<and> 0 < t)"
  using assms
proof (induction rule: press_start_loop.raw_induct [rotated 1, consumes 1])
  case (1 loop emu e res)
  obtain t where t: "time (ram e) = Inr t" "0 \<le> t"
    using time_nonneg time_value by blast
  show ?case
  proof (cases "t = 0")
    case True
    with 1 t show ?thesis
      by (auto split: sum.splits)
  next
    case False
    with 1 t show ?thesis
      by auto
  qed
qed

lemma idle_loop_return:
  assumes "idle_loop emu e = Some res"
  shows "0 < time_last e \<longrightarrow>
     (\<forall>e'. res = Inr e' \<longrightarrow>
        (\<exists>t. time (ram e') = Inr t \<and> t < time_last e' \<and> 0 < time_last e'))"
  using assms
proof (induction rule: idle_loop.raw_induct [rotated 1, consumes 1])
  case (1 loop emu e res)
  obtain t where t: "time (ram e) = Inr t"
    using time_value by blast
  show ?case
  proof (cases "t \<ge> time_last e")
    case True
    define e1 where "e1 = frame_advance emu 0 (frame_advance emu 8 (e\<lparr>time_last := t\<rparr>))"
    have last: "time_last e1 = t"
      by (simp add: e1_def frame_advance_fields)
    from 1(2) t True have "loop emu e1 = Some res"
      by (simp add: idle_round_value e1_def)
    from 1(1) [OF this] last True show ?thesis
      by auto
  next
    case False
    with 1(2) t show ?thesis
      by auto
  qed
qed

lemma skip_start_screen_return:
  assumes "skip_start_screen emu e = Some (Inr e')"
  shows "\<exists>t. time (ram e') = Inr t \<and> t < time_last e' \<and> 0 < time_last e'"
proof -
  define e0 where "e0 = frame_advance emu 0 (frame_advance emu 8 e)"
  from assms obtain e1 where e1: "press_start_loop emu e0 = Some (Inr e1)"
    by (auto simp add: skip_start_screen_def e0_def Let_def split: option.splits sum.splits)
  then obtain t1 where t1: "time (ram e1) = Inr t1" "0 < t1"
    using press_start_loop_return by blast
  from assms e1 t1 have "idle_loop emu (e1\<lparr>time_last := t1\<rparr>) = Some (Inr e')"
    by (simp add: skip_start_screen_def e0_def Let_def)
  from idle_loop_return [OF this] t1 show ?thesis
    by simp
qed


text \<open>
  C9. The claim is that, once the time is non-zero, the procedure goes on while the
  timer is decreasing and returns only when it stops decreasing. The second loop of the
  source runs while the time is not below the cached previous time. On the clock
  emulator the procedure goes on through the four frames in which the clock stands at
  400 and returns after frame 8, at the first reading below the cached one (300 against
  400), although the clock is still decreasing: one more frame reads 200.
\<close>

theorem skip_start_screen_counterexample:
  "on_return clock_emulator (skip_start_screen clock_emulator clock_env) =
     Some (Inr (Inr 300, 400, 8, Inr 200))"
  by (rule clock_run)

text \<open>
  C9, as the code has it. The procedure presses and releases start once. Then, while the
  time reads 0, each round presses start, writes the target world, stage and area into
  their cells when a single-stage target is configured, releases start and sets the
  pre-level timer cell 0x07A0 to 0; the loop ends when the time reads non-zero. Then the
  time is cached and, while the time is not below the cached time, each round caches the
  time and presses and releases start. The procedure returns as soon as the time reads
  below the cached time, that is, when the timer has started to decrease; the cached
  time is then positive.
\<close>

theorem skip_start_screen_structure:
  "(\<exists>t. time (ram e) = Inr t
      \<and> press_start_loop emu e =
          (if t = 0 then
             (case press_start_round emu e of
                Inl err \<Rightarrow> Some (Inl err)
              | Inr e1 \<Rightarrow> press_start_loop emu e1)
           else Some (Inr e))
      \<and> idle_loop emu e =
          (if t \<ge> time_last e
           then idle_loop emu (frame_advance emu 0 (frame_advance emu 8 (e\<lparr>time_last := t\<rparr>)))
           else Some (Inr e)))
   \<and> (\<not> is_single_stage_env e \<longrightarrow>
        press_start_round emu e =
          Inr (runout_prelevel_timer (frame_advance emu 0 (frame_advance emu 8 e))))
   \<and> (target_world e = Some w \<and> target_stage e = Some s \<and> target_area e = Some a \<longrightarrow>
        is_single_stage_env e
        \<and> press_start_round emu e =
            Inr (runout_prelevel_timer (frame_advance emu 0
              ((frame_advance emu 8 e)
                 \<lparr>ram := (ram (frame_advance emu 8 e))
                    (0x075f := word_of_int (w - 1), 0x075c := word_of_int (s - 1),
                     0x0760 := word_of_int (a - 1))\<rparr>))))
   \<and> ram (runout_prelevel_timer e) 0x07A0 = 0
   \<and> skip_start_screen emu e =
       (case press_start_loop emu (frame_advance emu 0 (frame_advance emu 8 e)) of
          None \<Rightarrow> None
        | Some (Inl err) \<Rightarrow> Some (Inl err)
        | Some (Inr e1) \<Rightarrow>
            (case time (ram e1) of
               Inl err \<Rightarrow> Some (Inl err)
             | Inr t1 \<Rightarrow> idle_loop emu (e1\<lparr>time_last := t1\<rparr>)))
   \<and> (skip_start_screen emu e = Some (Inr e') \<longrightarrow>
        (\<exists>t'. time (ram e') = Inr t' \<and> t' < time_last e' \<and> 0 < time_last e'))"
proof (intro conjI impI)
  obtain t where t: "time (ram e) = Inr t"
    using time_value by blast
  then show "\<exists>t. time (ram e) = Inr t
      \<and> press_start_loop emu e =
          (if t = 0 then
             (case press_start_round emu e of
                Inl err \<Rightarrow> Some (Inl err)
              | Inr e1 \<Rightarrow> press_start_loop emu e1)
           else Some (Inr e))
      \<and> idle_loop emu e =
          (if t \<ge> time_last e
           then idle_loop emu (frame_advance emu 0 (frame_advance emu 8 (e\<lparr>time_last := t\<rparr>)))
           else Some (Inr e))"
    using press_start_loop_unfold [OF t] idle_loop_unfold [OF t] by blast
next
  assume "\<not> is_single_stage_env e"
  then show "press_start_round emu e =
      Inr (runout_prelevel_timer (frame_advance emu 0 (frame_advance emu 8 e)))"
    by (rule press_start_round_multi)
next
  assume target: "target_world e = Some w \<and> target_stage e = Some s \<and> target_area e = Some a"
  then show "is_single_stage_env e"
    by (simp add: is_single_stage_env_def)
  from target show "press_start_round emu e =
      Inr (runout_prelevel_timer (frame_advance emu 0
        ((frame_advance emu 8 e)
           \<lparr>ram := (ram (frame_advance emu 8 e))
              (0x075f := word_of_int (w - 1), 0x075c := word_of_int (s - 1),
               0x0760 := word_of_int (a - 1))\<rparr>)))"
    by (intro press_start_round_single) simp_all
next
  show "ram (runout_prelevel_timer e) 0x07A0 = 0"
    by (rule runout_prelevel_timer_cell)
next
  show "skip_start_screen emu e =
      (case press_start_loop emu (frame_advance emu 0 (frame_advance emu 8 e)) of
         None \<Rightarrow> None
       | Some (Inl err) \<Rightarrow> Some (Inl err)
       | Some (Inr e1) \<Rightarrow>
           (case time (ram e1) of
              Inl err \<Rightarrow> Some (Inl err)
            | Inr t1 \<Rightarrow> idle_loop emu (e1\<lparr>time_last := t1\<rparr>)))"
    by (simp add: skip_start_screen_def Let_def)
next
  assume "skip_start_screen emu e = Some (Inr e')"
  then show "\<exists>t'. time (ram e') = Inr t' \<and> t' < time_last e' \<and> 0 < time_last e'"
    by (rule skip_start_screen_return)
qed

theorem skip_start_screen_structure_witness:
  "(\<exists>e'. skip_start_screen clock_emulator clock_env = Some (Inr e')
      \<and> (\<exists>t'. time (ram e') = Inr t' \<and> t' < time_last e' \<and> 0 < time_last e'))
   \<and> (\<exists>e1. press_start_round clock_emulator pinned_clock_env = Inr e1
         \<and> ram e1 0x075f = 1 \<and> ram e1 0x075c = 2 \<and> ram e1 0x0760 = 2 \<and> ram e1 0x07A0 = 0)
   \<and> (\<exists>e1. press_start_round clock_emulator clock_env = Inr e1 \<and> core e1 = 2
         \<and> ram e1 0x07A0 = 0)"
proof -
  from clock_run obtain res where res: "skip_start_screen clock_emulator clock_env = Some res"
      "map_sum id (observe clock_emulator) res = Inr (Inr 300, 400, 8, Inr 200)"
    by (auto simp add: on_return_def)
  then obtain e' where e': "skip_start_screen clock_emulator clock_env = Some (Inr e')"
    by (cases res) simp_all
  with skip_start_screen_structure [of clock_env clock_emulator 0 0 0 e']
  have first: "\<exists>e'. skip_start_screen clock_emulator clock_env = Some (Inr e')
      \<and> (\<exists>t'. time (ram e') = Inr t' \<and> t' < time_last e' \<and> 0 < time_last e')"
    by blast
  have pinned: "target_world pinned_clock_env = Some 2 \<and> target_stage pinned_clock_env = Some 3
      \<and> target_area pinned_clock_env = Some 3"
    by (simp add: pinned_clock_env_def)
  from skip_start_screen_structure [of pinned_clock_env clock_emulator 2 3 3 pinned_clock_env]
    pinned
  have second: "\<exists>e1. press_start_round clock_emulator pinned_clock_env = Inr e1
      \<and> ram e1 0x075f = 1 \<and> ram e1 0x075c = 2 \<and> ram e1 0x0760 = 2 \<and> ram e1 0x07A0 = 0"
    by (simp add: runout_prelevel_timer_def frame_advance_def clock_emulator_def
        pinned_clock_env_def clock_env_def)
  have "\<not> is_single_stage_env clock_env"
    by (simp add: is_single_stage_env_def clock_env_def)
  with skip_start_screen_structure [of clock_env clock_emulator 0 0 0 clock_env]
  have third: "\<exists>e1. press_start_round clock_emulator clock_env = Inr e1 \<and> core e1 = 2
      \<and> ram e1 0x07A0 = 0"
    by (simp add: runout_prelevel_timer_def frame_advance_def clock_emulator_def clock_env_def)
  from first second third show ?thesis
    by blast
qed

end
